theory Spec2Isabelle
  imports Complex_Main "HOL-Library.Char_ord" "HOL-Library.List_Lexorder"
begin

section \<open>JavaScript values\<close>

text \<open>
  The tool handler passes JSON values to the operations, so every argument is a
  JavaScript value.  A finite number is modelled by the rational it denotes (arithmetic on
  finite numbers is exact in this development; the rounding of IEEE doubles is not
  modelled).  Strings are lists of 8-bit characters.  \<open>JObj\<close> stands for any object or
  array, which no operation inspects.
\<close>

datatype jsnum = Finite rat | PosInf | NegInf | NaN

datatype jsval = JUndefined | JNull | JBool bool | JNum jsnum | JStr string | JObj

datatype error = Error string | TypeError

text \<open>Truthiness, as tested by \<^verbatim>\<open>if (x)\<close> and \<^verbatim>\<open>!x\<close>.\<close>

fun truthy :: "jsval \<Rightarrow> bool" where
  "truthy JUndefined = False"
| "truthy JNull = False"
| "truthy (JBool b) = b"
| "truthy (JNum (Finite r)) = (r \<noteq> 0)"
| "truthy (JNum NaN) = False"
| "truthy (JNum _) = True"
| "truthy (JStr s) = (s \<noteq> [])"
| "truthy JObj = True"

text \<open>A default parameter value \<^verbatim>\<open>(x = d)\<close> replaces \<^verbatim>\<open>undefined\<close> only.\<close>

definition default_param :: "jsval \<Rightarrow> jsval \<Rightarrow> jsval" where
  "default_param d x = (if x = JUndefined then d else x)"

subsection \<open>String helpers\<close>

definition lower_char :: "char \<Rightarrow> char" where
  "lower_char c =
     (case map_of (zip ''ABCDEFGHIJKLMNOPQRSTUVWXYZ'' ''abcdefghijklmnopqrstuvwxyz'') c of
        Some l \<Rightarrow> l
      | None \<Rightarrow> c)"

definition toLowerCase :: "string \<Rightarrow> string" where
  "toLowerCase s = map lower_char s"

text \<open>
  \<^verbatim>\<open>toLowerCase\<close> maps the letters A to Z here.  (On the other characters the method
  follows Unicode; none of them lowers to a letter that occurs in a valid category, so a
  string is a valid category here exactly when it is one there, with the same lower-case
  form.)  \<^verbatim>\<open>trim\<close> removes white space and line terminators, which are these among
  the 8-bit characters:
\<close>

definition is_space :: "char \<Rightarrow> bool" where
  "is_space c = (of_char c \<in> {9::nat, 10, 11, 12, 13, 32, 160})"

definition trim :: "string \<Rightarrow> string" where
  "trim s = rev (dropWhile is_space (rev (dropWhile is_space s)))"

definition is_digit :: "char \<Rightarrow> bool" where
  "is_digit c = (c \<in> set ''0123456789'')"

definition digit_val :: "char \<Rightarrow> nat" where
  "digit_val c = of_char c - 48"

definition digit_char :: "nat \<Rightarrow> char" where
  "digit_char n = ''0123456789'' ! n"

text \<open>\<^verbatim>\<open>String(n).padStart(2, '0')\<close> for \<open>n < 100\<close>, and the four-digit year of an ISO date.\<close>

definition pad2 :: "nat \<Rightarrow> string" where
  "pad2 n = [digit_char (n div 10 mod 10), digit_char (n mod 10)]"

definition pad4 :: "nat \<Rightarrow> string" where
  "pad4 n = [digit_char (n div 1000 mod 10), digit_char (n div 100 mod 10),
             digit_char (n div 10 mod 10), digit_char (n mod 10)]"

section \<open>Validation (db.js)\<close>

definition VALID_CATEGORIES :: "string list" where
  "VALID_CATEGORIES = [''food'', ''transport'', ''entertainment'', ''bills'', ''shopping'',
     ''health'', ''education'', ''travel'', ''savings'', ''other'']"

text \<open>
  \<^verbatim>\<open>VALID_CATEGORIES.includes(category.toLowerCase())\<close>: the method call raises a
  TypeError on every value that is not a string.
\<close>

fun isValidCategory :: "jsval \<Rightarrow> error + bool" where
  "isValidCategory (JStr s) = Inr (toLowerCase s \<in> set VALID_CATEGORIES)"
| "isValidCategory _ = Inl TypeError"

text \<open>\<^verbatim>\<open>typeof amount === 'number' && amount > 0 && isFinite(amount)\<close>\<close>

fun isValidAmount :: "jsval \<Rightarrow> bool" where
  "isValidAmount (JNum (Finite r)) = (r > 0)"
| "isValidAmount _ = False"

subsection \<open>Dates\<close>

text \<open>The regular expression \<^verbatim>\<open>/^\d{4}-\d{2}-\d{2}$/\<close>.\<close>

fun regex_test :: "string \<Rightarrow> bool" where
  "regex_test [y1, y2, y3, y4, h1, m1, m2, h2, d1, d2] =
     (is_digit y1 \<and> is_digit y2 \<and> is_digit y3 \<and> is_digit y4 \<and> h1 = CHR ''-'' \<and>
      is_digit m1 \<and> is_digit m2 \<and> h2 = CHR ''-'' \<and> is_digit d1 \<and> is_digit d2)"
| "regex_test _ = False"

definition leap_year :: "nat \<Rightarrow> bool" where
  "leap_year y = (y mod 4 = 0 \<and> (y mod 100 \<noteq> 0 \<or> y mod 400 = 0))"

definition days_in_month :: "nat \<Rightarrow> nat \<Rightarrow> nat" where
  "days_in_month y m =
     (if m = 2 then (if leap_year y then 29 else 28)
      else if m \<in> {4, 6, 9, 11} then 30 else 31)"

text \<open>
  The \<^verbatim>\<open>Date\<close> object of the engine, for the date-only form, which is read as UTC: either
  the invalid date (its time value is NaN) or a calendar day.  The engine takes the
  numbers of the string; a month outside 1..12 or a day outside 1..31 gives the invalid
  date; a day beyond the end of its month rolls over into the next month when \<open>lenient\<close>
  holds (V8) and gives the invalid date otherwise.
\<close>

datatype jsdate = InvalidDate | DateUTC nat nat nat

fun parse_ymd :: "string \<Rightarrow> nat \<times> nat \<times> nat" where
  "parse_ymd [y1, y2, y3, y4, h1, m1, m2, h2, d1, d2] =
     (1000 * digit_val y1 + 100 * digit_val y2 + 10 * digit_val y3 + digit_val y4,
      10 * digit_val m1 + digit_val m2,
      10 * digit_val d1 + digit_val d2)"
| "parse_ymd _ = (0, 0, 0)"

definition new_Date :: "bool \<Rightarrow> string \<Rightarrow> jsdate" where
  "new_Date lenient s =
     (if \<not> regex_test s then InvalidDate
      else case parse_ymd s of (y, m, d) \<Rightarrow>
        if m < 1 \<or> m > 12 \<or> d < 1 \<or> d > 31 then InvalidDate
        else if d \<le> days_in_month y m then DateUTC y m d
        else if lenient then DateUTC y (m + 1) (d - days_in_month y m)
        else InvalidDate)"

text \<open>\<^verbatim>\<open>date.toISOString().split('T')[0]\<close>\<close>

definition toISODate :: "nat \<Rightarrow> nat \<Rightarrow> nat \<Rightarrow> string" where
  "toISODate y m d = pad4 y @ ''-'' @ pad2 m @ ''-'' @ pad2 d"

text \<open>
  \<^verbatim>\<open>isValidDate\<close> on a string.  On any other value the regular expression (which
  tests the value's string form) or the final \<^verbatim>\<open>===\<close> fails, so the result is false.
\<close>

definition isValidDateString :: "bool \<Rightarrow> string \<Rightarrow> bool" where
  "isValidDateString lenient s =
     (if \<not> regex_test s then False
      else case new_Date lenient s of
             InvalidDate \<Rightarrow> False
           | DateUTC y m d \<Rightarrow> s = toISODate y m d)"

text \<open>The server runs on Node.js, whose engine is the lenient one.\<close>

fun isValidDate :: "jsval \<Rightarrow> bool" where
  "isValidDate (JStr s) = isValidDateString True s"
| "isValidDate _ = False"

text \<open>The reading of the specification: the pattern, and a day that exists in the calendar.\<close>

definition real_calendar_date :: "string \<Rightarrow> bool" where
  "real_calendar_date s =
     (case parse_ymd s of (y, m, d) \<Rightarrow>
        1 \<le> m \<and> m \<le> 12 \<and> 1 \<le> d \<and> d \<le> days_in_month y m \<and> toISODate y m d = s)"

section \<open>The record store\<close>

text \<open>
  The table \<^verbatim>\<open>expenses\<close> of the schema: \<open>id INTEGER PRIMARY KEY AUTOINCREMENT\<close>,
  \<open>amount REAL\<close>, three text columns and \<open>created_at\<close>, whose default is the
  time of the insert.  The store is the list of rows in insertion order, together with
  the counter that the database keeps for an AUTOINCREMENT key (the largest key it has
  handed out).  Keys are unbounded integers here.
\<close>

record expense =
  id' :: int
  amount :: rat
  category :: string
  description :: string
  date :: string
  created_at :: string

record store =
  table :: "expense list"
  sqlite_sequence :: int

text \<open>
  \<^verbatim>\<open>INSERT INTO expenses (amount, category, description, date) VALUES (?, ?, ?, ?)\<close>:
  the new key is one more than the larger of the counter and the largest key in the table.
\<close>

definition next_id :: "store \<Rightarrow> int" where
  "next_id st = max (sqlite_sequence st) (fold max (map id' (table st)) 0) + 1"

definition db_insert :: "string \<Rightarrow> rat \<Rightarrow> string \<Rightarrow> string \<Rightarrow> string \<Rightarrow> store \<Rightarrow> store" where
  "db_insert now a c d dt st =
     \<lparr>table = table st @
        [\<lparr>id' = next_id st, amount = a, category = c, description = d, date = dt,
          created_at = now\<rparr>],
      sqlite_sequence = next_id st\<rparr>"

text \<open>\<^verbatim>\<open>ORDER BY\<close>: a stable insertion sort by the relation "comes first".\<close>

fun insert_by :: "('a \<Rightarrow> 'a \<Rightarrow> bool) \<Rightarrow> 'a \<Rightarrow> 'a list \<Rightarrow> 'a list" where
  "insert_by le x [] = [x]"
| "insert_by le x (y # ys) = (if le x y then x # y # ys else y # insert_by le x ys)"

definition order_by :: "('a \<Rightarrow> 'a \<Rightarrow> bool) \<Rightarrow> 'a list \<Rightarrow> 'a list" where
  "order_by le xs = foldr (insert_by le) xs []"

text \<open>\<^verbatim>\<open>LIMIT ?\<close>: a negative limit means no limit.\<close>

definition sql_limit :: "int \<Rightarrow> 'a list \<Rightarrow> 'a list" where
  "sql_limit n xs = (if n < 0 then xs else take (nat n) xs)"

text \<open>\<^verbatim>\<open>ORDER BY date DESC, id DESC\<close>\<close>

definition date_desc_id_desc :: "expense \<Rightarrow> expense \<Rightarrow> bool" where
  "date_desc_id_desc a b = (date b < date a \<or> (date a = date b \<and> id' b \<le> id' a))"

text \<open>
  \<^verbatim>\<open>db.exec\<close> returns an empty array when the statement yields no row, so
  \<^verbatim>\<open>result[0]\<close> is undefined then; otherwise it holds the rows.
\<close>

definition exec_first :: "'a list \<Rightarrow> 'a list option" where
  "exec_first rs = (if rs = [] then None else Some rs)"

text \<open>\<^verbatim>\<open>rowToObject\<close>: null for no row, the object for one row, an array for more.\<close>

datatype 'a rowobj = Null | Obj 'a | Arr "'a list"

fun rowToObject :: "'a list \<Rightarrow> 'a rowobj" where
  "rowToObject [] = Null"
| "rowToObject [r] = Obj r"
| "rowToObject rs = Arr rs"

text \<open>\<^verbatim>\<open>Array.isArray(x) ? x : (x ? [x] : [])\<close>\<close>

fun as_array :: "'a rowobj \<Rightarrow> 'a list" where
  "as_array (Arr xs) = xs"
| "as_array (Obj x) = [x]"
| "as_array Null = []"

text \<open>\<^verbatim>\<open>SELECT * FROM expenses WHERE id = ?\<close>, read as the operations read it.\<close>

definition select_by_id :: "int \<Rightarrow> store \<Rightarrow> expense rowobj" where
  "select_by_id i st =
     (case exec_first (filter (\<lambda>r. id' r = i) (table st)) of
        None \<Rightarrow> Null
      | Some rs \<Rightarrow> rowToObject rs)"

subsection \<open>Strings built by the operations\<close>

fun digits :: "nat \<Rightarrow> string" where
  "digits n = (if n < 10 then [digit_char n] else digits (n div 10) @ [digit_char (n mod 10)])"

declare digits.simps [simp del]

text \<open>An integer in a template literal.\<close>

definition js_int_string :: "int \<Rightarrow> string" where
  "js_int_string i = (if i < 0 then ''-'' @ digits (nat (- i)) else digits (nat i))"

definition padStart :: "nat \<Rightarrow> char \<Rightarrow> string \<Rightarrow> string" where
  "padStart n c s = replicate (n - length s) c @ s"

fun join :: "string \<Rightarrow> string list \<Rightarrow> string" where
  "join sep [] = []"
| "join sep [x] = x"
| "join sep (x # xs) = x @ sep @ join sep xs"

definition invalid_category_message :: string where
  "invalid_category_message = ''Invalid category. Must be one of: '' @ join '', '' VALID_CATEGORIES"

definition not_found_message :: "int \<Rightarrow> string" where
  "not_found_message i = ''Expense with ID '' @ js_int_string i @ '' not found''"

text \<open>The string methods raise a TypeError on a value that has no such method.\<close>

fun js_toLowerCase :: "jsval \<Rightarrow> error + string" where
  "js_toLowerCase (JStr s) = Inr (toLowerCase s)"
| "js_toLowerCase _ = Inl TypeError"

fun js_trim :: "jsval \<Rightarrow> error + string" where
  "js_trim (JStr s) = Inr (trim s)"
| "js_trim _ = Inl TypeError"

text \<open>
  The value bound to a text parameter, and the one bound to the amount.  They are applied
  to validated values only, which are strings and finite numbers.
\<close>

fun bind_text :: "jsval \<Rightarrow> string" where
  "bind_text (JStr s) = s"
| "bind_text _ = []"

fun bind_real :: "jsval \<Rightarrow> rat" where
  "bind_real (JNum (Finite r)) = r"
| "bind_real _ = 0"


section \<open>The operations (index.js)\<close>

text \<open>
  An operation takes the store and returns its result with the store after it.  A result
  \<open>Inr r\<close> is the response object \<^verbatim>\<open>{success: true, ...}\<close> with the fields of \<open>r\<close>;
  \<open>Inl e\<close> is the error thrown, which the tool handler turns into
  \<^verbatim>\<open>{success: false, error: message}\<close>.  Parameters that share their name with a column
  carry a prime.
\<close>

record response =
  message :: string

record expense_response = response +
  expense :: "expense rowobj"


record list_response =
  count :: nat
  expenses :: "expense list"

subsection \<open>addExpense\<close>

definition addExpense ::
  "string \<Rightarrow> jsval \<Rightarrow> jsval \<Rightarrow> jsval \<Rightarrow> jsval \<Rightarrow> store \<Rightarrow> (error + expense_response) \<times> store" where
  "addExpense now amount' category' description' date' st =
     (if \<not> isValidAmount amount' then (Inl (Error ''Amount must be a positive number''), st)
      else case isValidCategory category' of
        Inl e \<Rightarrow> (Inl e, st)
      | Inr valid \<Rightarrow>
        if \<not> valid then (Inl (Error invalid_category_message), st)
        else if \<not> isValidDate date' then (Inl (Error ''Invalid date format. Use YYYY-MM-DD''), st)
        else if \<not> truthy description' then (Inl (Error ''Description cannot be empty''), st)
        else case js_trim description' of
          Inl e \<Rightarrow> (Inl e, st)
        | Inr trimmed \<Rightarrow>
          if length trimmed = 0 then (Inl (Error ''Description cannot be empty''), st)
          else case js_toLowerCase category' of
            Inl e \<Rightarrow> (Inl e, st)
          | Inr lowered \<Rightarrow>
            let st' = db_insert now (bind_real amount') lowered trimmed (bind_text date') st;
                result = exec_first (sql_limit 1 (order_by (\<lambda>a b. id' b \<le> id' a) (table st')));
                newExpense = (case result of None \<Rightarrow> Null | Some rs \<Rightarrow> rowToObject rs)
            in (Inr \<lparr>message = ''Expense added successfully'', expense = newExpense\<rparr>, st'))"

subsection \<open>getExpenses\<close>

text \<open>
  The \<^verbatim>\<open>WHERE\<close> clause grows by one term for each filter that is truthy.  The limit is
  an integer (\<open>None\<close> when the caller leaves it out).
\<close>

definition date_filter_terms :: "jsval \<Rightarrow> jsval \<Rightarrow> (expense \<Rightarrow> bool) list" where
  "date_filter_terms startDate endDate =
     (if truthy startDate then [\<lambda>r. bind_text startDate \<le> date r] else []) @
     (if truthy endDate then [\<lambda>r. date r \<le> bind_text endDate] else [])"

definition sql_where :: "('a \<Rightarrow> bool) list \<Rightarrow> 'a list \<Rightarrow> 'a list" where
  "sql_where terms rs = filter (\<lambda>r. list_all (\<lambda>t. t r) terms) rs"

definition getExpenses ::
  "jsval \<Rightarrow> jsval \<Rightarrow> jsval \<Rightarrow> int option \<Rightarrow> store \<Rightarrow> (error + list_response) \<times> store" where
  "getExpenses startDate' endDate' category' limit' st =
     (let startDate = default_param JNull startDate';
          endDate = default_param JNull endDate';
          categoryArg = default_param JNull category';
          limit = (case limit' of None \<Rightarrow> 100 | Some n \<Rightarrow> n)
      in
      if truthy startDate \<and> \<not> isValidDate startDate
      then (Inl (Error ''Invalid start date format. Use YYYY-MM-DD''), st)
      else if truthy endDate \<and> \<not> isValidDate endDate
      then (Inl (Error ''Invalid end date format. Use YYYY-MM-DD''), st)
      else case (if truthy categoryArg then isValidCategory categoryArg else Inr True) of
        Inl e \<Rightarrow> (Inl e, st)
      | Inr valid \<Rightarrow>
        if \<not> valid then (Inl (Error invalid_category_message), st)
        else case (if truthy categoryArg then js_toLowerCase categoryArg else Inr []) of
          Inl e \<Rightarrow> (Inl e, st)
        | Inr lowered \<Rightarrow>
          let terms = date_filter_terms startDate endDate @
                      (if truthy categoryArg then [\<lambda>r. category r = lowered] else []);
              result = exec_first (sql_limit limit (order_by date_desc_id_desc (sql_where terms (table st))));
              found = (case result of None \<Rightarrow> Arr [] | Some rs \<Rightarrow> rowToObject rs)
          in (Inr \<lparr>count = length (as_array found), expenses = as_array found\<rparr>, st))"

subsection \<open>getSpendingByCategory\<close>

text \<open>
  \<^verbatim>\<open>GROUP BY\<close>: one group for each distinct key, in ascending order of the key; the
  order of the groups matters only where a later \<^verbatim>\<open>ORDER BY\<close> leaves ties.
\<close>

definition group_by :: "(expense \<Rightarrow> string) \<Rightarrow> expense list \<Rightarrow> (string \<times> expense list) list" where
  "group_by k rs = map (\<lambda>c. (c, filter (\<lambda>r. k r = c) rs)) (sort (remdups (map k rs)))"

record group_row =
  key :: string
  transaction_count :: nat
  total_amount :: rat



record spending =
  total_spending :: rat


definition amounts :: "expense list \<Rightarrow> rat list" where
  "amounts rs = map amount rs"


text \<open>\<^verbatim>\<open>x || 0\<close> on a number.\<close>

definition or_zero :: "rat \<Rightarrow> rat" where
  "or_zero x = (if x \<noteq> 0 then x else 0)"



subsection \<open>getMonthlySummary\<close>

text \<open>
  The year and the month are integers.  \<^verbatim>\<open>new Date(year, month, 0).getDate()\<close> is the
  number of days of that month.  An aggregate query without \<^verbatim>\<open>GROUP BY\<close> yields exactly
  one row, whose sum and average are \<^verbatim>\<open>NULL\<close> when no row matches.
\<close>

record month_summary = spending +
  total_transactions :: nat
  average_transaction :: rat

record monthly_response =
  month :: string
  year :: int
  period :: string
  summary :: month_summary
  category_breakdown :: "group_row list"
  daily_spending :: "group_row list"

definition getMonthName :: "int \<Rightarrow> string" where
  "getMonthName m =
     (let months = [''January'', ''February'', ''March'', ''April'', ''May'', ''June'',
                    ''July'', ''August'', ''September'', ''October'', ''November'', ''December'']
      in if 1 \<le> m \<and> m \<le> 12 then months ! nat (m - 1) else ''Unknown'')"

definition sql_sum :: "rat list \<Rightarrow> rat option" where
  "sql_sum xs = (if xs = [] then None else Some (sum_list xs))"

definition sql_avg :: "rat list \<Rightarrow> rat option" where
  "sql_avg xs = (if xs = [] then None else Some (sum_list xs / of_nat (length xs)))"

text \<open>\<^verbatim>\<open>x || 0\<close> on a number or null.\<close>

definition or_zero_null :: "rat option \<Rightarrow> rat" where
  "or_zero_null x = (case x of None \<Rightarrow> 0 | Some v \<Rightarrow> or_zero v)"

definition row_of_group :: "string \<times> expense list \<Rightarrow> group_row" where
  "row_of_group g =
     (case g of (c, rs) \<Rightarrow>
        \<lparr>key = c, transaction_count = length rs, total_amount = sum_list (amounts rs)\<rparr>)"

definition month_start :: "int \<Rightarrow> int \<Rightarrow> string" where
  "month_start y m = js_int_string y @ ''-'' @ padStart 2 (CHR ''0'') (js_int_string m) @ ''-01''"

definition month_end :: "int \<Rightarrow> int \<Rightarrow> string" where
  "month_end y m =
     (let lastDay = int (days_in_month (nat y) (nat m))
      in js_int_string y @ ''-'' @ padStart 2 (CHR ''0'') (js_int_string m) @ ''-'' @
         padStart 2 (CHR ''0'') (js_int_string lastDay))"

definition getMonthlySummary :: "int \<Rightarrow> int \<Rightarrow> store \<Rightarrow> (error + monthly_response) \<times> store" where
  "getMonthlySummary y m st =
     (if y = 0 \<or> y < 2000 \<or> y > 2100
      then (Inl (Error ''Invalid year. Must be between 2000 and 2100''), st)
      else if m = 0 \<or> m < 1 \<or> m > 12
      then (Inl (Error ''Invalid month. Must be between 1 and 12''), st)
      else
        let startDate = month_start y m;
            endDate = month_end y m;
            matched = sql_where [\<lambda>r. startDate \<le> date r, \<lambda>r. date r \<le> endDate] (table st);
            transaction_count = length matched;
            total = sql_sum (amounts matched);
            average = sql_avg (amounts matched);
            categoryResult = exec_first
              (order_by (\<lambda>a b. total_amount b \<le> total_amount a)
                 (map row_of_group (group_by category matched)));
            categoryArray =
              as_array (case categoryResult of None \<Rightarrow> Arr [] | Some rs \<Rightarrow> rowToObject rs);
            dailyResult = exec_first
              (order_by (\<lambda>a b. key a \<le> key b) (map row_of_group (group_by date matched)));
            dailyArray =
              as_array (case dailyResult of None \<Rightarrow> Arr [] | Some rs \<Rightarrow> rowToObject rs)
        in (Inr \<lparr>month = getMonthName m, year = y,
                 period = startDate @ '' to '' @ endDate,
                 summary = \<lparr>total_spending = or_zero_null total,
                            total_transactions = (if transaction_count \<noteq> 0 then transaction_count else 0),
                            average_transaction = or_zero_null average\<rparr>,
                 category_breakdown = categoryArray,
                 daily_spending = dailyArray\<rparr>, st))"

subsection \<open>updateExpense and deleteExpense\<close>

text \<open>\<^verbatim>\<open>UPDATE expenses SET ... WHERE id = ?\<close> with the assignments collected so far.\<close>

definition db_update :: "int \<Rightarrow> (expense \<Rightarrow> expense) list \<Rightarrow> store \<Rightarrow> store" where
  "db_update i updates st =
     st\<lparr>table := map (\<lambda>r. if id' r = i then fold (\<lambda>u. u) updates r else r) (table st)\<rparr>"


definition no_fields_message :: string where
  "no_fields_message =
     ''No fields to update. Provide at least one field: amount, category, description, or date''"

text \<open>
  The assignments \<^verbatim>\<open>amount = ?\<close>, \<^verbatim>\<open>category = ?\<close>, \<^verbatim>\<open>description = ?\<close> and
  \<^verbatim>\<open>date = ?\<close> with their parameters, one for each argument that is not null; the
  category is bound in lower case and the description trimmed.
\<close>

definition update_assignments ::
  "jsval \<Rightarrow> jsval \<Rightarrow> string \<Rightarrow> jsval \<Rightarrow> string \<Rightarrow> jsval \<Rightarrow> (expense \<Rightarrow> expense) list" where
  "update_assignments amountArg categoryArg lowered descriptionArg trimmed dateArg =
     (if amountArg \<noteq> JNull then [\<lambda>r. r\<lparr>amount := bind_real amountArg\<rparr>] else []) @
     (if categoryArg \<noteq> JNull then [\<lambda>r. r\<lparr>category := lowered\<rparr>] else []) @
     (if descriptionArg \<noteq> JNull then [\<lambda>r. r\<lparr>description := trimmed\<rparr>] else []) @
     (if dateArg \<noteq> JNull then [\<lambda>r. r\<lparr>date := bind_text dateArg\<rparr>] else [])"

text \<open>
  The checks of the supplied fields, in the order of the source, which end in the first
  error or in the assignments.
\<close>

definition collect_updates :: "jsval \<Rightarrow> jsval \<Rightarrow> jsval \<Rightarrow> jsval \<Rightarrow> error + (expense \<Rightarrow> expense) list" where
  "collect_updates amountArg categoryArg descriptionArg dateArg =
     (if amountArg \<noteq> JNull \<and> \<not> isValidAmount amountArg
      then Inl (Error ''Amount must be a positive number'')
      else case (if categoryArg \<noteq> JNull then isValidCategory categoryArg else Inr True) of
        Inl e \<Rightarrow> Inl e
      | Inr valid \<Rightarrow>
        if \<not> valid then Inl (Error invalid_category_message)
        else case (if categoryArg \<noteq> JNull then js_toLowerCase categoryArg else Inr []) of
          Inl e \<Rightarrow> Inl e
        | Inr lowered \<Rightarrow>
          case (if descriptionArg \<noteq> JNull then js_trim descriptionArg else Inr []) of
            Inl e \<Rightarrow> Inl e
          | Inr trimmed \<Rightarrow>
            if descriptionArg \<noteq> JNull \<and> length trimmed = 0
            then Inl (Error ''Description cannot be empty'')
            else if dateArg \<noteq> JNull \<and> \<not> isValidDate dateArg
            then Inl (Error ''Invalid date format. Use YYYY-MM-DD'')
            else Inr (update_assignments amountArg categoryArg lowered descriptionArg trimmed dateArg))"

definition updateExpense ::
  "int \<Rightarrow> jsval \<Rightarrow> jsval \<Rightarrow> jsval \<Rightarrow> jsval \<Rightarrow> store \<Rightarrow> (error + expense_response) \<times> store" where
  "updateExpense i amount' category' description' date' st =
     (let amountArg = default_param JNull amount';
          categoryArg = default_param JNull category';
          descriptionArg = default_param JNull description';
          dateArg = default_param JNull date'
      in
      if select_by_id i st = Null then (Inl (Error (not_found_message i)), st)
      else case collect_updates amountArg categoryArg descriptionArg dateArg of
        Inl e \<Rightarrow> (Inl e, st)
      | Inr updates \<Rightarrow>
        if length updates = 0 then (Inl (Error no_fields_message), st)
        else
          let st' = db_update i updates st
          in (Inr \<lparr>message = ''Expense updated successfully'',
                   expense = select_by_id i st'\<rparr>, st'))"


subsection \<open>Sequences of operations\<close>




section \<open>Notions of the specification\<close>

text \<open>An optional argument is supplied when it is neither undefined nor null.\<close>

definition supplied :: "jsval \<Rightarrow> bool" where
  "supplied v = (v \<noteq> JUndefined \<and> v \<noteq> JNull)"

text \<open>
  A record after a partial update: each supplied field is replaced (the category in lower
  case, the description trimmed), every other field is kept.
\<close>

definition updated_record :: "jsval \<Rightarrow> jsval \<Rightarrow> jsval \<Rightarrow> jsval \<Rightarrow> expense \<Rightarrow> expense" where
  "updated_record a c d dt e =
     e\<lparr>amount := (if supplied a then bind_real a else amount e),
       category := (if supplied c then toLowerCase (bind_text c) else category e),
       description := (if supplied d then trim (bind_text d) else description e),
       date := (if supplied dt then bind_text dt else date e)\<rparr>"

text \<open>An update request: every supplied field is valid, and at least one is supplied.\<close>

definition valid_update :: "jsval \<Rightarrow> jsval \<Rightarrow> jsval \<Rightarrow> jsval \<Rightarrow> bool" where
  "valid_update a c d dt =
     ((supplied a \<longrightarrow> isValidAmount a) \<and>
      (supplied c \<longrightarrow> isValidCategory c = Inr True) \<and>
      (supplied d \<longrightarrow> (case d of JStr s \<Rightarrow> trim s \<noteq> [] | _ \<Rightarrow> False)) \<and>
      (supplied dt \<longrightarrow> isValidDate dt) \<and>
      (supplied a \<or> supplied c \<or> supplied d \<or> supplied dt))"

text \<open>
  The filter of a list request, as the specification states it: a record matches when
  it is not before the start date (if one is supplied), not after the end date (if one is
  supplied) and of the category in lower case (if one is supplied).
\<close>

definition matches_filter :: "jsval \<Rightarrow> jsval \<Rightarrow> jsval \<Rightarrow> expense \<Rightarrow> bool" where
  "matches_filter startDate endDate cat r =
     ((\<not> supplied startDate \<or> bind_text startDate \<le> date r) \<and>
      (\<not> supplied endDate \<or> date r \<le> bind_text endDate) \<and>
      (\<not> supplied cat \<or> category r = toLowerCase (bind_text cat)))"

text \<open>Valid filters: every supplied filter passes its validation.\<close>

definition valid_filters :: "jsval \<Rightarrow> jsval \<Rightarrow> jsval \<Rightarrow> bool" where
  "valid_filters startDate endDate cat =
     ((supplied startDate \<longrightarrow> isValidDate startDate) \<and>
      (supplied endDate \<longrightarrow> isValidDate endDate) \<and>
      (supplied cat \<longrightarrow> isValidCategory cat = Inr True))"




fun is_string :: "jsval \<Rightarrow> bool" where
  "is_string (JStr s) = True"
| "is_string _ = False"

text \<open>The date of a record falls within a month: its year and month numbers are those.\<close>

definition date_in_month :: "int \<Rightarrow> int \<Rightarrow> string \<Rightarrow> bool" where
  "date_in_month y m s = (case parse_ymd s of (y', m', d') \<Rightarrow> int y' = y \<and> int m' = m)"

section \<open>Store invariant and example stores\<close>


text \<open>Two rows, as the operations leave them.\<close>

definition lunch :: expense where
  "lunch = \<lparr>id' = 1, amount = 51 / 2, category = ''food'', description = ''Test lunch'',
            date = ''2024-11-03'', created_at = ''2024-11-03 12:00:00''\<rparr>"

definition bus :: expense where
  "bus = \<lparr>id' = 2, amount = 3, category = ''transport'', description = ''Bus'',
            date = ''2024-11-05'', created_at = ''2024-11-05 08:00:00''\<rparr>"


definition coffee :: expense where
  "coffee = \<lparr>id' = 4, amount = 4, category = ''food'', description = ''Coffee'',
             date = ''2024-11-06'', created_at = ''2024-11-06 10:00:00''\<rparr>"

definition three_rows :: store where
  "three_rows = \<lparr>table = [lunch, bus, coffee], sqlite_sequence = 4\<rparr>"



section \<open>Properties of the validation\<close>

subsection \<open>Digits and ISO dates\<close>

lemma digit_roundtrip: "is_digit c \<Longrightarrow> digit_char (digit_val c) = c"
  by (auto simp: is_digit_def digit_char_def digit_val_def)

lemma digit_val_lt: "is_digit c \<Longrightarrow> digit_val c < 10"
  by (auto simp: is_digit_def digit_val_def)

lemma div_base: "r < k \<Longrightarrow> (k * q + r) div k = (q::nat)"
  by simp

lemma mod_base: "r < k \<Longrightarrow> (k * q + r) mod k = (r::nat)"
  by simp

lemma pad2_digits:
  assumes "is_digit a" "is_digit b"
  shows "pad2 (10 * digit_val a + digit_val b) = [a, b]"
proof -
  have lt: "digit_val a < 10" "digit_val b < 10" using assms by (simp_all add: digit_val_lt)
  then show ?thesis using assms by (simp add: pad2_def digit_roundtrip)
qed

lemma pad4_digits: 
  assumes "is_digit a" "is_digit b" "is_digit c" "is_digit d"
  shows "pad4 (1000 * digit_val a + 100 * digit_val b + 10 * digit_val c + digit_val d) = [a, b, c, d]"
proof -
  let ?a = "digit_val a" and ?b = "digit_val b" and ?c = "digit_val c" and ?d = "digit_val d"
  let ?n = "1000 * ?a + 100 * ?b + 10 * ?c + ?d"
  have lt: "?a < 10" "?b < 10" "?c < 10" "?d < 10"
    using assms by (simp_all add: digit_val_lt)
  have "?n div 1000 = ?a"
    using div_base[of "100 * ?b + 10 * ?c + ?d" 1000 ?a] lt by (simp add: add.assoc)
  moreover have "?n div 100 = 10 * ?a + ?b"
    using div_base[of "10 * ?c + ?d" 100 "10 * ?a + ?b"] lt by (simp add: add.assoc)
  moreover have "?n div 10 = 100 * ?a + 10 * ?b + ?c"
    using div_base[of "?d" 10 "100 * ?a + 10 * ?b + ?c"] lt by (simp add: add.assoc)
  moreover have "?n mod 10 = ?d"
    using mod_base[of "?d" 10 "100 * ?a + 10 * ?b + ?c"] lt by (simp add: add.assoc)
  moreover have "(10 * ?a + ?b) mod 10 = ?b" "(100 * ?a + 10 * ?b + ?c) mod 10 = ?c"
    using mod_base[of "?b" 10 "?a"] mod_base[of "?c" 10 "10 * ?a + ?b"] lt by (simp_all add: add.assoc)
  ultimately show ?thesis using assms lt by (simp add: pad4_def digit_roundtrip)
qed

lemma regex_shape: "regex_test s \<Longrightarrow> \<exists>y1 y2 y3 y4 m1 m2 d1 d2. s = [y1, y2, y3, y4, CHR ''-'', m1, m2, CHR ''-'', d1, d2]
   \<and> is_digit y1 \<and> is_digit y2 \<and> is_digit y3 \<and> is_digit y4 \<and> is_digit m1 \<and> is_digit m2 \<and> is_digit d1 \<and> is_digit d2"
  by (induction s rule: regex_test.induct) auto

lemma toISODate_parse: "regex_test s \<Longrightarrow> (case parse_ymd s of (y, m, d) \<Rightarrow> toISODate y m d) = s"
  by (auto dest!: regex_shape simp: toISODate_def pad2_digits pad4_digits)

lemma digit_char_inj: "a < 10 \<Longrightarrow> b < 10 \<Longrightarrow> digit_char a = digit_char b \<Longrightarrow> a = b"
proof -
  assume "a < 10" "b < 10" "digit_char a = digit_char b"
  moreover have "distinct ''0123456789''" by simp
  ultimately show ?thesis by (simp add: digit_char_def nth_eq_iff_index_eq del: distinct.simps)
qed

lemma pad2_inj: "a < 100 \<Longrightarrow> b < 100 \<Longrightarrow> pad2 a = pad2 b \<Longrightarrow> a = b"
proof -
  assume a: "a < 100" "b < 100" and e: "pad2 a = pad2 b"
  have "a div 10 mod 10 = b div 10 mod 10" "a mod 10 = b mod 10"
    using e by (auto simp: pad2_def intro: digit_char_inj)
  moreover have "a div 10 mod 10 = a div 10" "b div 10 mod 10 = b div 10" using a by simp_all
  ultimately show ?thesis by (metis div_mult_mod_eq)
qed

lemma toISODate_month: "m < 100 \<Longrightarrow> m' < 100 \<Longrightarrow> toISODate y m d = toISODate y' m' d' \<Longrightarrow> m = m'"
proof -
  assume a: "m < 100" "m' < 100" and e: "toISODate y m d = toISODate y' m' d'"
  from e have "pad2 m = pad2 m'" by (simp add: toISODate_def pad4_def pad2_def)
  then show ?thesis using a by (rule_tac pad2_inj)
qed

lemma days_in_month_le: "days_in_month y m \<le> 31" "28 \<le> days_in_month y m"
  by (simp_all add: days_in_month_def)

lemma isValidDateString_iff: "isValidDateString l s \<longleftrightarrow> regex_test s \<and> real_calendar_date s"
proof (cases "regex_test s")
  case False
  then show ?thesis by (simp add: isValidDateString_def)
next
  case True
  obtain y m d where p: "parse_ymd s = (y, m, d)" by (cases "parse_ymd s") auto
  have iso: "toISODate y m d = s" using toISODate_parse[OF True] p by simp
  show ?thesis
  proof (cases "1 \<le> m \<and> m \<le> 12 \<and> 1 \<le> d \<and> d \<le> days_in_month y m")
    case True
    moreover have "d \<le> 31" using True days_in_month_le(1)[of y m] by linarith
    ultimately show ?thesis using \<open>regex_test s\<close> p iso
      by (simp add: isValidDateString_def new_Date_def real_calendar_date_def)
  next
    case False
    have neq: "s \<noteq> toISODate y (Suc m) d'" if "m \<le> 12" for d'
      using toISODate_month[of "Suc m" m y d' y d] iso that by auto
    have "\<not> isValidDateString l s"
      using False \<open>regex_test s\<close> p by (simp add: isValidDateString_def new_Date_def neq)
    moreover have "\<not> real_calendar_date s"
      using False p by (auto simp: real_calendar_date_def)
    ultimately show ?thesis by simp
  qed
qed

lemmas date_eval = isValidDateString_def new_Date_def is_digit_def digit_val_def
  days_in_month_def toISODate_def pad2_def pad4_def digit_char_def leap_year_def
  real_calendar_date_def

text \<open>
  Claim C5.  \<open>isValidDate\<close> holds of a string exactly when the string has the form of
  four digits, a hyphen, two digits, a hyphen and two digits, and its numbers are a day
  of the calendar whose ISO form is the string itself.  This holds for the lenient engine
  and for the strict one.  It holds of 2024-11-03, and it fails for 2024-13-01, for
  2024-02-30 and for 11/03/2024.
\<close>

theorem isValidDate_iff_calendar:
  "(isValidDateString l s \<longleftrightarrow> regex_test s \<and> real_calendar_date s) \<and>
   isValidDateString l ''2024-11-03'' \<and>
   \<not> isValidDateString l ''2024-13-01'' \<and>
   \<not> isValidDateString l ''2024-02-30'' \<and>
   \<not> isValidDateString l ''11/03/2024''"
proof -
  have "isValidDateString l ''2024-11-03''" by (simp add: date_eval)
  moreover have "\<not> isValidDateString l ''2024-13-01''" by (simp add: date_eval)
  moreover have "\<not> isValidDateString l ''2024-02-30''" by (simp add: date_eval)
  moreover have "\<not> isValidDateString l ''11/03/2024''" by (simp add: date_eval)
  ultimately show ?thesis using isValidDateString_iff by blast
qed

theorem isValidDate_iff_calendar_witness:
  "isValidDateString True ''2024-02-29'' \<and> regex_test ''2024-02-29'' \<and>
   real_calendar_date ''2024-02-29'' \<and>
   \<not> isValidDateString True ''2023-02-29'' \<and> \<not> real_calendar_date ''2023-02-29''"
  using isValidDate_iff_calendar[of True "''2024-02-29''"]
        isValidDate_iff_calendar[of True "''2023-02-29''"]
  by (simp add: date_eval)

section \<open>Properties of the store\<close>

subsection \<open>Ordering and selection\<close>











lemma select_by_id_Null: "select_by_id i st = Null \<longleftrightarrow> (\<forall>r\<in>set (table st). id' r \<noteq> i)"
proof -
  have "rowToObject rs \<noteq> Null" if "rs \<noteq> []" for rs :: "expense list"
    using that by (cases rs rule: rowToObject.cases) auto
  then show ?thesis
    by (auto simp: select_by_id_def exec_first_def filter_empty_conv)
qed

lemma distinct_head_neq: "distinct (map f (a # rs)) \<Longrightarrow> \<forall>x\<in>set rs. f x \<noteq> f a"
  by (metis distinct.simps(2) imageI list.simps(9) set_map)

lemma filter_id_unique:
  "distinct (map id' rs) \<Longrightarrow> r \<in> set rs \<Longrightarrow> filter (\<lambda>x. id' x = id' r) rs = [r]"
proof (induction rs)
  case Nil
  then show ?case by simp
next
  case (Cons a rs)
  show ?case
  proof (cases "a = r")
    case True
    then have "\<forall>x\<in>set rs. id' x \<noteq> id' r" using Cons.prems by (simp add: distinct_head_neq)
    then have "filter (\<lambda>x. id' x = id' r) rs = []" by (simp add: filter_empty_conv)
    then show ?thesis using True by simp
  next
    case False
    then have "r \<in> set rs" using Cons.prems by simp
    moreover have "id' a \<noteq> id' r" using Cons.prems calculation by auto
    ultimately show ?thesis using Cons by simp
  qed
qed

lemma select_by_id_Obj:
  "distinct (map id' (table st)) \<Longrightarrow> r \<in> set (table st) \<Longrightarrow> select_by_id (id' r) st = Obj r"
  by (simp add: select_by_id_def exec_first_def filter_id_unique)

















subsection \<open>Updates\<close>

lemma default_param_supplied: "default_param JNull v \<noteq> JNull \<longleftrightarrow> supplied v"
  by (simp add: default_param_def supplied_def)

lemma default_param_id: "supplied v \<Longrightarrow> default_param JNull v = v"
  by (simp add: default_param_def supplied_def)

lemma supplied_not_Null: "supplied v \<Longrightarrow> v \<noteq> JNull"
  by (simp add: supplied_def)

lemma default_param_Null: "\<not> supplied v \<Longrightarrow> default_param JNull v = JNull"
  by (auto simp add: default_param_def supplied_def)

lemma valid_category_str: "isValidCategory c = Inr b \<Longrightarrow> js_toLowerCase c = Inr (toLowerCase (bind_text c))"
  by (cases c) auto

lemma valid_description_str:
  "(case d of JStr s \<Rightarrow> trim s \<noteq> [] | _ \<Rightarrow> False) \<Longrightarrow> js_trim d = Inr (trim (bind_text d)) \<and> trim (bind_text d) \<noteq> []"
  by (cases d) auto

lemma map_update_unique:
  assumes "distinct (map id' rs)" and "e \<in> set rs"
  shows "map (\<lambda>r. if id' r = id' e then f r else r) rs = map (\<lambda>r. if id' r = id' e then f e else r) rs"
proof (rule map_cong[OF refl])
  fix r assume "r \<in> set rs"
  moreover have "inj_on id' (set rs)" using assms(1) by (simp add: distinct_map)
  ultimately have "id' r = id' e \<Longrightarrow> r = e" using assms(2) by (auto dest: inj_onD)
  then show "(if id' r = id' e then f r else r) = (if id' r = id' e then f e else r)" by auto
qed








lemma updateExpense_success:
  assumes dist: "distinct (map id' (table st))" and mem: "e \<in> set (table st)" and i: "id' e = i"
    and v: "valid_update a c d dt"
  shows "updateExpense i a c d dt st =
           (Inr \<lparr>message = ''Expense updated successfully'', expense = Obj (updated_record a c d dt e)\<rparr>,
            st\<lparr>table := map (\<lambda>r. if id' r = i then updated_record a c d dt e else r) (table st)\<rparr>)"
proof -
  let ?A = "default_param JNull a" and ?C = "default_param JNull c"
  let ?D = "default_param JNull d" and ?T = "default_param JNull dt"
  let ?e' = "updated_record a c d dt e"
  define low where "low = (if ?C \<noteq> JNull then toLowerCase (bind_text ?C) else [])"
  define tr where "tr = (if ?D \<noteq> JNull then trim (bind_text ?D) else [])"
  define ups where "ups = update_assignments ?A ?C low ?D tr ?T"
  have ex: "(select_by_id i st = Null) = False" using mem i by (auto simp: select_by_id_Null)
  have fold_ups: "fold (\<lambda>u. u) ups r = updated_record a c d dt r" for r
    unfolding ups_def low_def tr_def
    by (cases "supplied a"; cases "supplied c"; cases "supplied d"; cases "supplied dt")
       (simp_all add: update_assignments_def updated_record_def default_param_id
          default_param_Null supplied_not_Null)
  have ne: "(length ups = 0) = False"
    using v unfolding ups_def
    by (auto simp: valid_update_def update_assignments_def default_param_supplied)
  have tab: "table (db_update i ups st) = map (\<lambda>r. if id' r = i then ?e' else r) (table st)"
  proof -
    have "table (db_update i ups st) = map (\<lambda>r. if id' r = id' e then updated_record a c d dt r else r) (table st)"
      by (simp add: db_update_def fold_ups i)
    also have "\<dots> = map (\<lambda>r. if id' r = id' e then ?e' else r) (table st)"
      by (rule map_update_unique[OF dist mem])
    finally show ?thesis by (simp add: i)
  qed
  have st': "db_update i ups st = st\<lparr>table := map (\<lambda>r. if id' r = i then ?e' else r) (table st)\<rparr>"
    using tab by (simp add: db_update_def)
  have ide: "id' ?e' = i" using i by (simp add: updated_record_def)
  have ids: "map id' (table (db_update i ups st)) = map id' (table st)"
    by (simp add: tab comp_def ide)
  have "?e' = (\<lambda>r. if id' r = i then ?e' else r) e" using i by simp
  then have "?e' \<in> (\<lambda>r. if id' r = i then ?e' else r) ` set (table st)"
    using mem by (rule image_eqI)
  then have "?e' \<in> set (table (db_update i ups st))" by (simp only: tab set_map)
  then have sel: "select_by_id i (db_update i ups st) = Obj ?e'"
    using select_by_id_Obj[of "db_update i ups st" ?e'] dist ids ide by simp
  have am: "(?A \<noteq> JNull \<and> \<not> isValidAmount ?A) = False"
    using v by (cases "supplied a") (simp_all add: valid_update_def default_param_Null default_param_id)
  have cat: "(if ?C \<noteq> JNull then isValidCategory ?C else Inr True) = Inr True"
    using v by (cases "supplied c") (simp_all add: valid_update_def default_param_Null default_param_id)
  have lw: "(if ?C \<noteq> JNull then js_toLowerCase ?C else Inr []) = Inr low"
    unfolding low_def using v valid_category_str[of c True]
    by (cases "supplied c") (simp_all add: valid_update_def default_param_Null default_param_id)
  have tr1: "(if ?D \<noteq> JNull then js_trim ?D else Inr []) = Inr tr"
    unfolding tr_def using v valid_description_str[of d]
    by (cases "supplied d") (simp_all add: valid_update_def default_param_Null default_param_id)
  have tr2: "(?D \<noteq> JNull \<and> length tr = 0) = False"
    unfolding tr_def using v valid_description_str[of d]
    by (cases "supplied d") (simp_all add: valid_update_def default_param_Null default_param_id)
  have dv: "(?T \<noteq> JNull \<and> \<not> isValidDate ?T) = False"
    using v by (cases "supplied dt") (simp_all add: valid_update_def default_param_Null default_param_id)
  have "collect_updates ?A ?C ?D ?T = Inr ups"
    unfolding collect_updates_def
    by (simp only: am cat lw tr1 tr2 dv if_False if_True sum.case not_True_eq_False ups_def[symmetric])
  then have "updateExpense i a c d dt st =
          (Inr \<lparr>message = ''Expense updated successfully'', expense = select_by_id i (db_update i ups st)\<rparr>,
           db_update i ups st)"
    unfolding updateExpense_def Let_def
    by (simp only: ex ne if_False sum.case)
  then show ?thesis using sel st' by simp
qed

subsection \<open>Sequences of operations\<close>













lemmas str_eval = toLowerCase_def lower_char_def VALID_CATEGORIES_def trim_def is_space_def






subsection \<open>Listing\<close>

lemma as_array_result:
  "as_array (case exec_first rs of None \<Rightarrow> Arr [] | Some vs \<Rightarrow> rowToObject vs) = rs"
  by (cases rs rule: rowToObject.cases) (simp_all add: exec_first_def)

lemma valid_date_truthy: "isValidDate v \<Longrightarrow> truthy v"
proof (cases v)
  case (JStr s)
  assume "isValidDate v"
  then have "regex_test s" using JStr by (simp add: isValidDateString_iff)
  then have "s \<noteq> []" by auto
  then show ?thesis using JStr by simp
qed simp_all

lemma valid_category_truthy: "isValidCategory v = Inr True \<Longrightarrow> truthy v"
proof (cases v)
  case (JStr s)
  assume "isValidCategory v = Inr True"
  then have "toLowerCase s \<in> set VALID_CATEGORIES" using JStr by simp
  moreover have "[] \<notin> set VALID_CATEGORIES" by (simp add: VALID_CATEGORIES_def)
  ultimately have "s \<noteq> []" by (auto simp: toLowerCase_def)
  then show ?thesis using JStr by simp
qed simp_all

lemma truthy_default_Null: "\<not> supplied v \<Longrightarrow> \<not> truthy (default_param JNull v)"
  by (simp add: default_param_Null)

lemma bind_text_default: "supplied v \<Longrightarrow> bind_text (default_param JNull v) = bind_text v"
  by (simp add: default_param_id)




lemma date_filter_terms_valid:
  assumes "supplied sd \<longrightarrow> isValidDate sd" and "supplied ed \<longrightarrow> isValidDate ed"
  shows "list_all (\<lambda>t. t r) (date_filter_terms (default_param JNull sd) (default_param JNull ed)) =
         ((\<not> supplied sd \<or> bind_text sd \<le> date r) \<and> (\<not> supplied ed \<or> date r \<le> bind_text ed))"
proof -
  have s: "truthy (default_param JNull sd) = supplied sd"
    using assms(1) valid_date_truthy[of sd] truthy_default_Null[of sd]
    by (cases "supplied sd") (simp_all add: default_param_id)
  have e: "truthy (default_param JNull ed) = supplied ed"
    using assms(2) valid_date_truthy[of ed] truthy_default_Null[of ed]
    by (cases "supplied ed") (simp_all add: default_param_id)
  show ?thesis
    by (cases "supplied sd"; cases "supplied ed")
       (simp_all add: date_filter_terms_def s e bind_text_default)
qed

lemma getExpenses_filters:
  assumes v: "valid_filters sd ed c"
  shows "getExpenses sd ed c lmt st =
           (let full = order_by date_desc_id_desc (filter (matches_filter sd ed c) (table st));
                found = sql_limit (case lmt of None \<Rightarrow> 100 | Some n \<Rightarrow> n) full
            in (Inr \<lparr>count = length found, expenses = found\<rparr>, st))"
proof -
  let ?S = "default_param JNull sd" and ?E = "default_param JNull ed" and ?C = "default_param JNull c"
  define low where "low = (if truthy ?C then toLowerCase (bind_text ?C) else [])"
  have vs: "supplied sd \<longrightarrow> isValidDate sd" and ve: "supplied ed \<longrightarrow> isValidDate ed"
    and vc: "supplied c \<longrightarrow> isValidCategory c = Inr True"
    using v by (simp_all add: valid_filters_def)
  have s: "(truthy ?S \<and> \<not> isValidDate ?S) = False"
    using vs truthy_default_Null[of sd] by (cases "supplied sd") (simp_all add: default_param_id)
  have e: "(truthy ?E \<and> \<not> isValidDate ?E) = False"
    using ve truthy_default_Null[of ed] by (cases "supplied ed") (simp_all add: default_param_id)
  have tc: "truthy ?C = supplied c"
    using vc valid_category_truthy[of c] truthy_default_Null[of c]
    by (cases "supplied c") (simp_all add: default_param_id)
  have cat: "(if truthy ?C then isValidCategory ?C else Inr True) = Inr True"
    using vc by (cases "supplied c") (simp_all add: tc default_param_id)
  have lw: "(if truthy ?C then js_toLowerCase ?C else Inr []) = Inr low"
    unfolding low_def using vc valid_category_str[of c True]
    by (cases "supplied c") (simp_all add: tc default_param_id)
  have terms: "sql_where (date_filter_terms ?S ?E @ (if truthy ?C then [\<lambda>r. category r = low] else []))
                 (table st) = filter (matches_filter sd ed c) (table st)"
    unfolding sql_where_def
  proof (rule filter_cong[OF refl])
    fix r
    show "list_all (\<lambda>t. t r) (date_filter_terms ?S ?E @ (if truthy ?C then [\<lambda>r. category r = low] else []))
           = matches_filter sd ed c r"
      using date_filter_terms_valid[OF vs ve, of r]
      by (cases "supplied c") (simp_all add: matches_filter_def tc low_def bind_text_default)
  qed
  show ?thesis
    unfolding getExpenses_def Let_def
    by (simp only: s e cat lw terms as_array_result if_False if_True sum.case not_True_eq_False)
qed




lemma truthy_default: "truthy (default_param JNull v) = truthy v"
  by (cases v) (simp_all add: default_param_def)

lemma isValidDate_default: "truthy v \<Longrightarrow> isValidDate (default_param JNull v) = isValidDate v"
  by (cases v) (simp_all add: default_param_def)

lemma default_truthy: "truthy v \<Longrightarrow> default_param JNull v = v"
  by (cases v) (simp_all add: default_param_def)

text \<open>
  Claim C6 (for truthy filters).  A start date that is truthy and fails the date validation makes
  the list operation fail with the error that names the start date; otherwise an end date
  that is truthy and fails it makes it fail with the error that names the end date;
  otherwise a category that is a non-empty string and fails the category validation
  makes it fail with the error that names the category and lists the valid ones.  The
  store is unchanged and no record is returned.
\<close>

theorem getExpenses_rejects:
  "(truthy sd \<and> \<not> isValidDate sd \<longrightarrow>
      getExpenses sd ed c lmt st = (Inl (Error ''Invalid start date format. Use YYYY-MM-DD''), st)) \<and>
   ((truthy sd \<longrightarrow> isValidDate sd) \<and> truthy ed \<and> \<not> isValidDate ed \<longrightarrow>
      getExpenses sd ed c lmt st = (Inl (Error ''Invalid end date format. Use YYYY-MM-DD''), st)) \<and>
   ((truthy sd \<longrightarrow> isValidDate sd) \<and> (truthy ed \<longrightarrow> isValidDate ed) \<and>
    truthy c \<and> isValidCategory c = Inr False \<longrightarrow>
      getExpenses sd ed c lmt st =
        (Inl (Error (''Invalid category. Must be one of: '' @ join '', '' VALID_CATEGORIES)), st))"
proof -
  have t: "truthy (default_param JNull sd) = truthy sd" "truthy (default_param JNull ed) = truthy ed"
    "truthy (default_param JNull c) = truthy c" by (simp_all add: truthy_default)
  show ?thesis
    unfolding getExpenses_def Let_def t
    by (auto simp: isValidDate_default default_truthy invalid_category_message_def)
qed

lemma getExpenses_all:
  "getExpenses JUndefined JUndefined JUndefined lmt st =
     (let found = sql_limit (case lmt of None \<Rightarrow> 100 | Some n \<Rightarrow> n)
                    (order_by date_desc_id_desc (table st))
      in (Inr \<lparr>count = length found, expenses = found\<rparr>, st))"
proof -
  have "valid_filters JUndefined JUndefined JUndefined" by (simp add: valid_filters_def supplied_def)
  then show ?thesis
    using getExpenses_filters[of JUndefined JUndefined JUndefined lmt st]
    by (simp add: matches_filter_def supplied_def)
qed

lemma order_three_rows: "order_by date_desc_id_desc (table three_rows) = [coffee, bus, lunch]"
  by (simp add: order_by_def date_desc_id_desc_def three_rows_def lunch_def bus_def coffee_def)

text \<open>
  Claim C6 does not hold for the limit and for falsy filters: the list operation does not
  validate the limit (5000 returns every record, 0 returns none, neither is an error),
  and the empty string, which is not a valid date, is dropped as a start date without an
  error.
\<close>

theorem getExpenses_limit_unchecked:
  "getExpenses JUndefined JUndefined JUndefined (Some 5000) three_rows =
     (Inr \<lparr>count = 3, expenses = [coffee, bus, lunch]\<rparr>, three_rows) \<and>
   getExpenses JUndefined JUndefined JUndefined (Some 0) three_rows =
     (Inr \<lparr>count = 0, expenses = []\<rparr>, three_rows) \<and>
   \<not> isValidDate (JStr []) \<and>
   getExpenses (JStr []) JUndefined JUndefined None three_rows =
     (Inr \<lparr>count = 3, expenses = [coffee, bus, lunch]\<rparr>, three_rows)"
proof -
  have "getExpenses (JStr []) JUndefined JUndefined None three_rows =
     (Inr \<lparr>count = 3, expenses = [coffee, bus, lunch]\<rparr>, three_rows)"
    by (simp add: getExpenses_def default_param_def date_filter_terms_def sql_where_def
        order_three_rows sql_limit_def exec_first_def)
  moreover have "\<not> isValidDate (JStr [])" by (simp add: isValidDateString_def)
  ultimately show ?thesis
    by (simp add: getExpenses_all order_three_rows sql_limit_def)
qed

theorem getExpenses_rejects_witness:
  "truthy (JStr ''11/03/2024'') \<and> \<not> isValidDate (JStr ''11/03/2024'') \<and>
   getExpenses (JStr ''11/03/2024'') JUndefined JUndefined None three_rows =
     (Inl (Error ''Invalid start date format. Use YYYY-MM-DD''), three_rows) \<and>
   getExpenses JUndefined (JStr ''2024-02-30'') JUndefined None three_rows =
     (Inl (Error ''Invalid end date format. Use YYYY-MM-DD''), three_rows) \<and>
   getExpenses JUndefined JUndefined (JStr ''xyz'') None three_rows =
     (Inl (Error ''Invalid category. Must be one of: food, transport, entertainment, bills, shopping, health, education, travel, savings, other''),
      three_rows)"
proof -
  have a: "truthy (JStr ''11/03/2024'')" "\<not> isValidDate (JStr ''11/03/2024'')"
    "truthy (JStr ''2024-02-30'')" "\<not> isValidDate (JStr ''2024-02-30'')"
    "truthy (JStr ''xyz'')" "isValidCategory (JStr ''xyz'') = Inr False" "\<not> truthy JUndefined"
    by (simp_all add: date_eval str_eval)
  have j: "''Invalid category. Must be one of: '' @ join '', '' VALID_CATEGORIES =
    ''Invalid category. Must be one of: food, transport, entertainment, bills, shopping, health, education, travel, savings, other''"
    by (simp add: VALID_CATEGORIES_def)
  show ?thesis
    using getExpenses_rejects[of "JStr ''11/03/2024''" JUndefined JUndefined None three_rows]
      getExpenses_rejects[of JUndefined "JStr ''2024-02-30''" JUndefined None three_rows]
      getExpenses_rejects[of JUndefined JUndefined "JStr ''xyz''" None three_rows]
      a unfolding j by (simp only: simp_thms)
qed

text \<open>
  Claim C10 (where the call is reached).  \<open>isValidCategory\<close> raises a TypeError on
  every value that is not a string.  The operations surface it where they reach the call: the add when the
  amount is valid; the list operation when the category is truthy and the dates pass;
  the update when the record exists, the amount is absent or valid, and the category is
  supplied.
\<close>

theorem isValidCategory_TypeError:
  "(\<not> is_string c \<longrightarrow> isValidCategory c = Inl TypeError) \<and>
   (\<not> is_string c \<and> isValidAmount a \<longrightarrow> addExpense now a c d dt st = (Inl TypeError, st)) \<and>
   (\<not> is_string c \<and> truthy c \<and> (truthy sd \<longrightarrow> isValidDate sd) \<and> (truthy ed \<longrightarrow> isValidDate ed) \<longrightarrow>
      getExpenses sd ed c lmt st = (Inl TypeError, st)) \<and>
   (\<not> is_string c \<and> supplied c \<and> select_by_id i st \<noteq> Null \<and> (supplied a \<longrightarrow> isValidAmount a) \<longrightarrow>
      updateExpense i a c d dt st = (Inl TypeError, st))"
proof -
  have n: "\<not> is_string c \<Longrightarrow> isValidCategory c = Inl TypeError"
    by (cases c) simp_all
  have t: "truthy (default_param JNull sd) = truthy sd" "truthy (default_param JNull ed) = truthy ed"
    "truthy (default_param JNull c) = truthy c" by (simp_all add: truthy_default)
  have g: "\<not> is_string c \<Longrightarrow> truthy c \<Longrightarrow> (truthy sd \<longrightarrow> isValidDate sd) \<Longrightarrow> (truthy ed \<longrightarrow> isValidDate ed) \<Longrightarrow>
      getExpenses sd ed c lmt st = (Inl TypeError, st)"
    unfolding getExpenses_def Let_def t
    by (auto simp: isValidDate_default default_truthy n)
  have u: "\<not> is_string c \<Longrightarrow> supplied c \<Longrightarrow> select_by_id i st \<noteq> Null \<Longrightarrow> (supplied a \<longrightarrow> isValidAmount a) \<Longrightarrow>
      updateExpense i a c d dt st = (Inl TypeError, st)"
    by (cases "supplied a")
       (simp_all add: updateExpense_def collect_updates_def Let_def default_param_id
          default_param_Null supplied_not_Null n)
  show ?thesis using n g u by (simp add: addExpense_def)
qed

theorem isValidCategory_TypeError_witness:
  "isValidCategory (JNum (Finite 5)) = Inl TypeError \<and> isValidCategory JNull = Inl TypeError \<and>
   isValidCategory JObj = Inl TypeError \<and>
   addExpense ''2024-11-06 09:00:00'' (JNum (Finite 12)) (JNum (Finite 5)) (JStr ''Lunch'')
     (JStr ''2024-11-06'') three_rows = (Inl TypeError, three_rows) \<and>
   getExpenses JUndefined JUndefined JObj None three_rows = (Inl TypeError, three_rows) \<and>
   updateExpense 1 JUndefined (JNum (Finite 5)) JUndefined JUndefined three_rows =
     (Inl TypeError, three_rows)"
proof -
  have s: "select_by_id 1 three_rows \<noteq> Null"
    by (simp add: select_by_id_Null three_rows_def lunch_def)
  show ?thesis
    using isValidCategory_TypeError[of "JNum (Finite 5)" "JNum (Finite 12)" "''2024-11-06 09:00:00''"
        "JStr ''Lunch''" "JStr ''2024-11-06''" three_rows JUndefined JUndefined None 1]
      isValidCategory_TypeError[of JNull]
      isValidCategory_TypeError[of JObj "JUndefined" _ JUndefined JUndefined three_rows JUndefined JUndefined None 1]
      isValidCategory_TypeError[of "JNum (Finite 5)" "JUndefined" _ JUndefined JUndefined three_rows JUndefined JUndefined None 1]
      s by (simp add: supplied_def)
qed

text \<open>
  Claim C10 does not hold for every operation: a null category, or the number 0, given to the list
  operation is taken as no filter and the call succeeds; a null category given to the
  update is taken as not supplied; and the add reports an invalid amount before it looks
  at the category.
\<close>

theorem category_null_not_TypeError:
  "\<not> is_string JNull \<and>
   getExpenses JUndefined JUndefined JNull None three_rows =
     (Inr \<lparr>count = 3, expenses = [coffee, bus, lunch]\<rparr>, three_rows) \<and>
   \<not> is_string (JNum (Finite 0)) \<and>
   getExpenses JUndefined JUndefined (JNum (Finite 0)) None three_rows =
     (Inr \<lparr>count = 3, expenses = [coffee, bus, lunch]\<rparr>, three_rows) \<and>
   updateExpense 1 (JNum (Finite 30)) JNull JUndefined JUndefined three_rows =
     (Inr \<lparr>message = ''Expense updated successfully'', expense = Obj (lunch\<lparr>amount := 30\<rparr>)\<rparr>,
      \<lparr>table = [lunch\<lparr>amount := 30\<rparr>, bus, coffee], sqlite_sequence = 4\<rparr>) \<and>
   addExpense ''2024-11-06 09:00:00'' (JNum (Finite 0)) JNull (JStr ''Lunch'') (JStr ''2024-11-06'')
     three_rows = (Inl (Error ''Amount must be a positive number''), three_rows)"
proof -
  have g: "getExpenses JUndefined JUndefined c None three_rows =
     (Inr \<lparr>count = 3, expenses = [coffee, bus, lunch]\<rparr>, three_rows)" if "\<not> truthy c" for c
    using that
    by (simp add: getExpenses_def truthy_default default_param_def date_filter_terms_def sql_where_def
        order_three_rows sql_limit_def exec_first_def Let_def)
  have v: "valid_update (JNum (Finite 30)) JNull JUndefined JUndefined"
    by (simp add: valid_update_def supplied_def)
  have m: "lunch \<in> set (table three_rows)" "id' lunch = 1" "distinct (map id' (table three_rows))"
    by (simp_all add: three_rows_def lunch_def bus_def coffee_def)
  have u: "updated_record (JNum (Finite 30)) JNull JUndefined JUndefined lunch = lunch\<lparr>amount := 30\<rparr>"
    by (simp add: updated_record_def supplied_def)
  have t: "three_rows\<lparr>table := map (\<lambda>r. if id' r = 1
               then updated_record (JNum (Finite 30)) JNull JUndefined JUndefined lunch else r)
             (table three_rows)\<rparr>
     = \<lparr>table = [lunch\<lparr>amount := 30\<rparr>, bus, coffee], sqlite_sequence = 4\<rparr>"
    unfolding u by (simp add: three_rows_def lunch_def bus_def coffee_def)
  have "updateExpense 1 (JNum (Finite 30)) JNull JUndefined JUndefined three_rows =
     (Inr \<lparr>message = ''Expense updated successfully'', expense = Obj (lunch\<lparr>amount := 30\<rparr>)\<rparr>,
      \<lparr>table = [lunch\<lparr>amount := 30\<rparr>, bus, coffee], sqlite_sequence = 4\<rparr>)"
    using updateExpense_success[OF m(3) m(1) m(2) v] by (simp add: u t)
  then show ?thesis using g[of JNull] g[of "JNum (Finite 0)"] by (simp add: addExpense_def)
qed

subsection \<open>Monthly summary\<close>

lemma digit_val_char: "k < 10 \<Longrightarrow> digit_val (digit_char k) = k"
proof -
  assume "k < 10"
  then have "k \<in> {0, 1, 2, 3, 4, 5, 6, 7, 8, 9}" by auto
  then show ?thesis by (auto simp: digit_val_def digit_char_def)
qed

lemma digits_small: "n < 10 \<Longrightarrow> digits n = [digit_char n]"
  by (simp add: digits.simps)

lemma digits_step: "10 \<le> n \<Longrightarrow> digits n = digits (n div 10) @ [digit_char (n mod 10)]"
  by (subst digits.simps) simp

lemma digits_2: "10 \<le> n \<Longrightarrow> n < 100 \<Longrightarrow> digits n = pad2 n"
  by (simp add: digits_step digits_small pad2_def)

lemma digits_4:
  assumes "1000 \<le> n" and "n < 10000"
  shows "digits n = pad4 n"
proof -
  have a: "10 \<le> n" "10 \<le> n div 10" "10 \<le> n div 100" "n div 1000 < 10"
    using assms by simp_all
  have b: "n div 10 div 10 = n div 100" "n div 100 div 10 = n div 1000"
    by (simp_all add: div_mult2_eq[symmetric])
  have "digits n = digits (n div 10) @ [digit_char (n mod 10)]" using a(1) by (rule digits_step)
  also have "digits (n div 10) = digits (n div 100) @ [digit_char (n div 10 mod 10)]"
    using digits_step[OF a(2)] by (simp only: b)
  also have "digits (n div 100) = digits (n div 1000) @ [digit_char (n div 100 mod 10)]"
    using digits_step[OF a(3)] by (simp only: b)
  also have "digits (n div 1000) = [digit_char (n div 1000 mod 10)]"
    using a(4) by (simp add: digits_small)
  finally show ?thesis by (simp add: pad4_def)
qed

lemma month_digits: "1 \<le> m \<Longrightarrow> m \<le> 12 \<Longrightarrow> padStart 2 (CHR ''0'') (js_int_string m) = pad2 (nat m)"
proof -
  assume m: "1 \<le> m" "m \<le> 12"
  show ?thesis
  proof (cases "m < 10")
    case True
    then have "digits (nat m) = [digit_char (nat m)]" by (simp add: digits_small)
    moreover have "pad2 (nat m) = [CHR ''0'', digit_char (nat m)]"
      using True by (simp add: pad2_def digit_char_def)
    ultimately show ?thesis using m by (simp add: padStart_def js_int_string_def)
  next
    case False
    then have "digits (nat m) = pad2 (nat m)" using m by (simp add: digits_2)
    then show ?thesis using m by (simp add: padStart_def js_int_string_def pad2_def)
  qed
qed

lemma month_start_pad: 
  assumes "2000 \<le> y" "y \<le> 2100" "1 \<le> m" "m \<le> 12"
  shows "month_start y m = (pad4 (nat y) @ ''-'' @ pad2 (nat m)) @ ''-01''"
proof -
  have "js_int_string y = pad4 (nat y)" using assms(1,2) by (simp add: js_int_string_def digits_4)
  then show ?thesis using month_digits[OF assms(3,4)] by (simp add: month_start_def)
qed

lemma month_end_pad: 
  assumes "2000 \<le> y" "y \<le> 2100" "1 \<le> m" "m \<le> 12"
  shows "\<exists>z. month_end y m = (pad4 (nat y) @ ''-'' @ pad2 (nat m)) @ z"
proof -
  have "js_int_string y = pad4 (nat y)" using assms(1,2) by (simp add: js_int_string_def digits_4)
  then show ?thesis using month_digits[OF assms(3,4)] by (simp add: month_end_def Let_def)
qed

lemma between_prefix:
  "p @ x \<le> s \<Longrightarrow> s \<le> p @ y \<Longrightarrow> length p \<le> length s \<Longrightarrow> take (length p) s = (p :: string)"
proof (induction p arbitrary: s)
  case Nil
  then show ?case by simp
next
  case (Cons c p)
  obtain d s' where s: "s = d # s'" using Cons.prems(3) by (cases s) auto
  have "c = d" using Cons.prems(1,2) s by (auto simp: Cons_le_Cons)
  moreover have "p @ x \<le> s'" "s' \<le> p @ y" using Cons.prems(1,2) s calculation by (auto simp: Cons_le_Cons)
  ultimately show ?case using Cons.IH[of s'] Cons.prems(3) s by simp
qed

lemma pad4_value:
  assumes "(n::nat) < 10000"
  shows "1000 * (n div 1000 mod 10) + 100 * (n div 100 mod 10) + 10 * (n div 10 mod 10) + n mod 10 = n"
proof -
  have b: "n div 10 div 10 = n div 100" "n div 100 div 10 = n div 1000"
    by (simp_all add: div_mult2_eq[symmetric])
  have e0: "n = 10 * (n div 10) + n mod 10" by simp
  have e1: "n div 10 = 10 * (n div 100) + n div 10 mod 10"
    using div_mult_mod_eq[of "n div 10" 10] by (simp add: b)
  have e2: "n div 100 = 10 * (n div 1000) + n div 100 mod 10"
    using div_mult_mod_eq[of "n div 100" 10] by (simp add: b)
  have e3: "n div 1000 mod 10 = n div 1000" using assms by simp
  show ?thesis using e0 e1 e2 e3 by linarith
qed

lemma pad2_value: "n < 100 \<Longrightarrow> 10 * (n div 10 mod 10) + n mod 10 = (n::nat)"
  by simp

lemma parse_of_prefix:
  assumes r: "regex_test s" and t: "take 7 s = pad4 Y @ ''-'' @ pad2 M" and Y: "Y < 10000" and M: "M < 100"
  shows "fst (parse_ymd s) = Y \<and> fst (snd (parse_ymd s)) = M"
proof -
  obtain y1 y2 y3 y4 m1 m2 d1 d2 where
    s: "s = [y1, y2, y3, y4, CHR ''-'', m1, m2, CHR ''-'', d1, d2]"
    using regex_shape[OF r] by blast
  have y: "y1 = digit_char (Y div 1000 mod 10)" "y2 = digit_char (Y div 100 mod 10)"
    "y3 = digit_char (Y div 10 mod 10)" "y4 = digit_char (Y mod 10)"
    and m: "m1 = digit_char (M div 10 mod 10)" "m2 = digit_char (M mod 10)"
    using t by (simp_all add: s pad4_def pad2_def)
  have "fst (parse_ymd s) = 1000 * (Y div 1000 mod 10) + 100 * (Y div 100 mod 10) + 10 * (Y div 10 mod 10) + Y mod 10"
    by (simp add: s y digit_val_char)
  moreover have "fst (snd (parse_ymd s)) = 10 * (M div 10 mod 10) + M mod 10"
    by (simp add: s m digit_val_char)
  ultimately show ?thesis using pad4_value[OF Y] pad2_value[OF M] by simp
qed

lemma in_range_in_month:
  assumes y: "2000 \<le> y" "y \<le> 2100" and m: "1 \<le> m" "m \<le> 12"
    and v: "isValidDateString True s" and lo: "month_start y m \<le> s" and hi: "s \<le> month_end y m"
  shows "date_in_month y m s"
proof -
  let ?p = "pad4 (nat y) @ ''-'' @ pad2 (nat m)"
  have r: "regex_test s" using v by (simp add: isValidDateString_iff)
  then have len: "length s = 10" using regex_shape[of s] by auto
  obtain z where z: "month_end y m = ?p @ z" using month_end_pad[OF y m] by blast
  have lp: "length ?p = 7" by (simp add: pad4_def pad2_def)
  have "take (length ?p) s = ?p"
    using lo hi len lp unfolding month_start_pad[OF y m] z by (intro between_prefix) simp_all
  then have "take 7 s = ?p" by (simp only: lp)
  then have "fst (parse_ymd s) = nat y \<and> fst (snd (parse_ymd s)) = nat m"
    using y m by (intro parse_of_prefix[OF r]) simp_all
  then show ?thesis using y m by (auto simp: date_in_month_def split: prod.splits)
qed

lemma order_by_empty: "order_by le [] = []"
  by (simp add: order_by_def)

lemma group_by_empty: "group_by k [] = []"
  by (simp add: group_by_def)

lemma getMonthlySummary_no_match:
  assumes "2000 \<le> y" "y \<le> 2100" "1 \<le> m" "m \<le> 12"
    and "sql_where [\<lambda>r. month_start y m \<le> date r, \<lambda>r. date r \<le> month_end y m] (table st) = []"
  shows "getMonthlySummary y m st =
           (Inr \<lparr>month = getMonthName m, year = y,
                 period = month_start y m @ '' to '' @ month_end y m,
                 summary = \<lparr>total_spending = 0, total_transactions = 0, average_transaction = 0\<rparr>,
                 category_breakdown = [], daily_spending = []\<rparr>, st)"
  using assms
  by (simp add: getMonthlySummary_def Let_def amounts_def sql_sum_def sql_avg_def or_zero_null_def
      group_by_empty order_by_empty exec_first_def)

text \<open>
  Claim C9.  For a year in 2000..2100 and a month in 1..12, on a store whose dates are
  valid and none of which falls within that month, the monthly summary succeeds, leaves
  the store as it is, and reports no transaction, a total and an average of 0, an empty
  category breakdown and an empty daily breakdown.
\<close>

theorem getMonthlySummary_empty:
  assumes "2000 \<le> y" and "y \<le> 2100" and "1 \<le> m" and "m \<le> 12"
    and "\<forall>r\<in>set (table st). isValidDateString True (date r) \<and> \<not> date_in_month y m (date r)"
  shows "getMonthlySummary y m st =
           (Inr \<lparr>month = getMonthName m, year = y,
                 period = month_start y m @ '' to '' @ month_end y m,
                 summary = \<lparr>total_spending = 0, total_transactions = 0, average_transaction = 0\<rparr>,
                 category_breakdown = [], daily_spending = []\<rparr>, st)"
proof -
  have "\<forall>r\<in>set (table st). \<not> (month_start y m \<le> date r \<and> date r \<le> month_end y m)"
    using assms(5) in_range_in_month[OF assms(1-4)] by blast
  then have "sql_where [\<lambda>r. month_start y m \<le> date r, \<lambda>r. date r \<le> month_end y m] (table st) = []"
    by (auto simp: sql_where_def filter_empty_conv)
  then show ?thesis by (rule getMonthlySummary_no_match[OF assms(1-4)])
qed

theorem getMonthlySummary_empty_witness:
  "getMonthlySummary 2024 12 three_rows =
     (Inr \<lparr>month = ''December'', year = 2024, period = ''2024-12-01 to 2024-12-31'',
           summary = \<lparr>total_spending = 0, total_transactions = 0, average_transaction = 0\<rparr>,
           category_breakdown = [], daily_spending = []\<rparr>, three_rows)"
proof -
  have d: "\<forall>r\<in>set (table three_rows). isValidDateString True (date r) \<and> \<not> date_in_month 2024 12 (date r)"
    by (simp add: three_rows_def lunch_def bus_def coffee_def date_eval date_in_month_def)
  have n: "getMonthName 12 = ''December''" by (simp add: getMonthName_def)
  have s: "month_start 2024 12 = ''2024-12-01''"
    by (simp add: month_start_def js_int_string_def digits.simps digit_char_def padStart_def)
  have e: "month_end 2024 12 = ''2024-12-31''"
    by (simp add: month_end_def js_int_string_def digits.simps digit_char_def padStart_def
        days_in_month_def Let_def)
  show ?thesis
    using getMonthlySummary_empty[of 2024 12 three_rows] d by (simp add: n s e)
qed

subsection \<open>Category breakdown\<close>





lemma group_keys: "map fst (group_by k rs) = sort (remdups (map k rs))"
  by (simp add: group_by_def comp_def)















end
